theory Spec2Isabelle
  imports Main "HOL-Library.Word"
begin

section \<open>Strings of the host language\<close>

text \<open>
  The program is JavaScript (\<^verbatim>\<open>src/app.js\<close>). Its strings are sequences of 16-bit code
  units; \<^verbatim>\<open>length\<close>, \<^verbatim>\<open>substring\<close>, \<^verbatim>\<open>split\<close> and \<^verbatim>\<open>trim\<close> all work on code units,
  and the message texts are mostly Japanese, so a string is modelled as a list of
  16-bit words. ASCII literals of the source are written with \<open>js\<close>; the other literals
  are spelled out as code units.
\<close>

type_synonym unit16 = "16 word"
type_synonym jstr = "unit16 list"

definition js :: "string \<Rightarrow> jstr" where
  "js s = map of_char s"

text \<open>
  \<^verbatim>\<open>String.prototype.trim\<close> removes ECMAScript WhiteSpace and LineTerminator code units
  from both ends: TAB, LF, VT, FF, CR, SP, NBSP, U+1680, U+2000..U+200A, U+2028, U+2029,
  U+202F, U+205F, U+3000 (the ideographic space) and U+FEFF.
\<close>

definition isWhiteSpace :: "unit16 \<Rightarrow> bool" where
  "isWhiteSpace c \<longleftrightarrow>
     c \<in> {0x0009, 0x000A, 0x000B, 0x000C, 0x000D, 0x0020, 0x00A0, 0x1680,
          0x2028, 0x2029, 0x202F, 0x205F, 0x3000, 0xFEFF}
     \<or> (0x2000 \<le> c \<and> c \<le> 0x200A)"

definition trim :: "jstr \<Rightarrow> jstr" where
  "trim s = rev (dropWhile isWhiteSpace (rev (dropWhile isWhiteSpace s)))"

definition startsWith :: "jstr \<Rightarrow> jstr \<Rightarrow> bool" where
  "startsWith s p \<longleftrightarrow> take (length p) s = p"

text \<open>
  \<^verbatim>\<open>s.split(sep)\<close> for a separator of one code unit: every occurrence separates, and
  the pieces around it are kept even when empty (\<^verbatim>\<open>"".split(",")\<close> is \<^verbatim>\<open>[""]\<close>). The
  last case of the \<open>case\<close> is unreachable: the result always has a first piece.
\<close>

fun split_char :: "unit16 \<Rightarrow> jstr \<Rightarrow> jstr list" where
  "split_char sep [] = [[]]"
| "split_char sep (c # cs) =
     (if c = sep then [] # split_char sep cs
      else (case split_char sep cs of
              t # ts \<Rightarrow> (c # t) # ts
            | [] \<Rightarrow> [[c]]))"

text \<open>
  \<^verbatim>\<open>s.split(/[\n,]+/)\<close>: the separator is a maximal run of line feeds and commas. A run
  at the start or at the end of the string leaves an empty first or last piece.
\<close>

definition isSeparator :: "unit16 \<Rightarrow> bool" where
  "isSeparator c \<longleftrightarrow> c = 0x000A \<or> c = 0x002C"

function split_runs :: "jstr \<Rightarrow> jstr list" where
  "split_runs [] = [[]]"
| "split_runs (c # cs) =
     (if isSeparator c then [] # split_runs (dropWhile isSeparator cs)
      else (case split_runs cs of
              t # ts \<Rightarrow> (c # t) # ts
            | [] \<Rightarrow> [[c]]))"
  by pat_completeness auto
termination
  by (relation "measure length") (auto simp: less_Suc_eq_le length_dropWhile_le)

text \<open>\<^verbatim>\<open>xs.join(sep)\<close>, which is also how an array is converted to a string (with a comma).\<close>

fun join :: "jstr \<Rightarrow> jstr list \<Rightarrow> jstr" where
  "join sep [] = []"
| "join sep [x] = x"
| "join sep (x # y # ys) = x @ sep @ join sep (y # ys)"

text \<open>The decimal rendering of a non-negative integer inside a template literal.\<close>

fun toString :: "nat \<Rightarrow> jstr" where
  "toString n =
     (if n < 10 then [of_nat (48 + n)]
      else toString (n div 10) @ [of_nat (48 + n mod 10)])"

declare toString.simps [simp del]

section \<open>Numbers and \<^verbatim>\<open>parseInt\<close>\<close>

text \<open>
  The only numbers the pipeline computes with are results of \<^verbatim>\<open>parseInt\<close>, minus one,
  compared with 0 and with an array length. \<open>Num v\<close> carries the mathematical value;
  a double represents every integer below \<open>2^53\<close> exactly and rounding is monotone, so
  every comparison against an array length comes out as on the exact value.
\<close>

datatype number = NaN | Num int

definition isNaN :: "number \<Rightarrow> bool" where
  "isNaN x \<longleftrightarrow> (case x of NaN \<Rightarrow> True | Num v \<Rightarrow> False)"

definition minus1 :: "number \<Rightarrow> number" where
  "minus1 x = (case x of NaN \<Rightarrow> NaN | Num v \<Rightarrow> Num (v - 1))"

definition digit_value :: "unit16 \<Rightarrow> int option" where
  "digit_value c =
     (if 0x30 \<le> c \<and> c \<le> 0x39 then Some (uint c - 0x30)
      else if 0x61 \<le> c \<and> c \<le> 0x7A then Some (uint c - 0x61 + 10)
      else if 0x41 \<le> c \<and> c \<le> 0x5A then Some (uint c - 0x41 + 10)
      else None)"

definition isRadixDigit :: "int \<Rightarrow> unit16 \<Rightarrow> bool" where
  "isRadixDigit R c \<longleftrightarrow> (case digit_value c of Some d \<Rightarrow> d < R | None \<Rightarrow> False)"

definition mathInt :: "int \<Rightarrow> jstr \<Rightarrow> int" where
  "mathInt R Z = foldl (\<lambda>acc c. acc * R + (case digit_value c of Some d \<Rightarrow> d | None \<Rightarrow> 0)) 0 Z"

text \<open>
  \<^verbatim>\<open>parseInt(string)\<close> with no radix, step by step as ECMAScript defines it: leading
  white space is skipped, one sign is read, a \<^verbatim>\<open>0x\<close> or \<^verbatim>\<open>0X\<close> prefix selects radix 16
  (radix 10 otherwise), and the value is that of the longest prefix of digits of the
  radix. There is no digit at all exactly when the result is \<open>NaN\<close>; whatever follows
  the digits is ignored.
\<close>

definition parseInt :: "jstr \<Rightarrow> number" where
  "parseInt inputString =
     (let S = dropWhile isWhiteSpace inputString;
          sign = (if S \<noteq> [] \<and> hd S = 0x2D then - 1 else 1);
          S1 = (if S \<noteq> [] \<and> (hd S = 0x2B \<or> hd S = 0x2D) then tl S else S);
          hex = (2 \<le> length S1 \<and> (take 2 S1 = js ''0x'' \<or> take 2 S1 = js ''0X''));
          R = (if hex then 16 else 10);
          S2 = (if hex then drop 2 S1 else S1);
          Z = takeWhile (isRadixDigit R) S2
      in if Z = [] then NaN else Num (sign * mathInt R Z))"

section \<open>Message hits and the ranking stage\<close>

text \<open>
  A match returned by \<^verbatim>\<open>search.messages\<close>, with the two fields the pipeline reads:
  \<^verbatim>\<open>text\<close> and \<^verbatim>\<open>permalink\<close>.
\<close>

record hit =
  msg_text :: jstr
  permalink :: jstr

text \<open>\<^verbatim>\<open>allResults[index]\<close>: \<^verbatim>\<open>undefined\<close> (here \<open>None\<close>) unless the index is in range.\<close>

definition array_get :: "'a list \<Rightarrow> number \<Rightarrow> 'a option" where
  "array_get xs index =
     (case index of
        NaN \<Rightarrow> None
      | Num i \<Rightarrow> if 0 \<le> i \<and> i < int (length xs) then Some (xs ! nat i) else None)"

text \<open>
  Lines 271-274: the ranker's answer is split on commas; each token is trimmed, parsed
  and decremented; \<open>NaN\<close> and values outside \<open>[0, allResults.length)\<close> are filtered out.
\<close>

definition evaluatedIndexes :: "jstr \<Rightarrow> nat \<Rightarrow> number list" where
  "evaluatedIndexes content len =
     filter (\<lambda>index. \<not> isNaN index \<and>
                (case index of NaN \<Rightarrow> False | Num i \<Rightarrow> 0 \<le> i \<and> i < int len))
       (map (\<lambda>index. minus1 (parseInt (trim index))) (split_char 0x002C content))"

text \<open>
  Line 277: \<^verbatim>\<open>uniqueResults\<close> is an ordinary object used as a dictionary from permalink
  to message. It is modelled by its own properties in creation order. Three rules of
  the language are part of the model:
  \<^item> assigning to the key \<^verbatim>\<open>__proto__\<close> runs the inherited setter and creates no own
    property;
  \<^item> \<^verbatim>\<open>uniqueResults.hasOwnProperty\<close> is looked up on the object first, so once a
    message is stored under the key \<^verbatim>\<open>hasOwnProperty\<close> the next call of it raises
    a TypeError (a message is not a function);
  \<^item> \<^verbatim>\<open>Object.values\<close> lists the properties whose key is an array index (a canonical
    decimal numeral below \<open>2^32 - 1\<close>) first, in ascending numeric order, and
    the others after them in creation order.
\<close>

type_synonym js_object = "(jstr \<times> hit) list"

datatype js_error = TypeError

definition hasOwnProperty :: "js_object \<Rightarrow> jstr \<Rightarrow> bool" where
  "hasOwnProperty obj k \<longleftrightarrow> k \<in> set (map fst obj)"

definition set_property :: "js_object \<Rightarrow> jstr \<Rightarrow> hit \<Rightarrow> js_object" where
  "set_property obj k v =
     (if k = js ''__proto__'' then obj
      else if hasOwnProperty obj k then map (\<lambda>p. if fst p = k then (k, v) else p) obj
      else obj @ [(k, v)])"

definition isArrayIndex :: "jstr \<Rightarrow> bool" where
  "isArrayIndex k \<longleftrightarrow>
     k \<noteq> [] \<and> list_all (isRadixDigit 10) k \<and> (k = js ''0'' \<or> hd k \<noteq> 0x30)
     \<and> mathInt 10 k < 2 ^ 32 - 1"

definition Object_values :: "js_object \<Rightarrow> hit list" where
  "Object_values obj =
     map snd (sort_key (\<lambda>p. mathInt 10 (fst p)) (filter (\<lambda>p. isArrayIndex (fst p)) obj))
     @ map snd (filter (\<lambda>p. \<not> isArrayIndex (fst p)) obj)"

text \<open>
  Lines 278-283: the \<^verbatim>\<open>forEach\<close> over the validated indexes. The callback reads
  \<^verbatim>\<open>allResults[index]\<close>, skips an undefined message, and otherwise calls
  \<^verbatim>\<open>uniqueResults.hasOwnProperty(msg.permalink)\<close>, storing the message when the answer
  is no.
\<close>

fun uniqueResults :: "hit list \<Rightarrow> number list \<Rightarrow> js_object \<Rightarrow> js_error + js_object" where
  "uniqueResults allResults [] obj = Inr obj"
| "uniqueResults allResults (index # rest) obj =
     (case array_get allResults index of
        None \<Rightarrow> uniqueResults allResults rest obj
      | Some msg \<Rightarrow>
          if hasOwnProperty obj (js ''hasOwnProperty'') then Inl TypeError
          else if \<not> hasOwnProperty obj (permalink msg)
          then uniqueResults allResults rest (set_property obj (permalink msg) msg)
          else uniqueResults allResults rest obj)"

text \<open>Line 284: \<^verbatim>\<open>Object.values(uniqueResults).slice(0, 15)\<close>.\<close>

definition results :: "hit list \<Rightarrow> number list \<Rightarrow> js_error + hit list" where
  "results allResults indexes =
     (case uniqueResults allResults indexes [] of
        Inl e \<Rightarrow> Inl e
      | Inr obj \<Rightarrow> Inr (take 15 (Object_values obj)))"

section \<open>Presentation\<close>

text \<open>
  Lines 292-294: \<^verbatim>\<open>results.map((msg, idx) => ...)\<close> joined with line feeds. Each entry
  is the position \<open>idx + 1\<close>, a full stop and a space, the first 30 code units of the
  text, then the fixed piece U+2026 (horizontal ellipsis), space, U+2192 (arrow),
  space, \<^verbatim>\<open><\<close>, the permalink, and the fixed piece \<^verbatim>\<open>|\<close>, U+30EA, U+30F3, U+30AF, \<^verbatim>\<open>>\<close>.
\<close>

definition ellipsis_arrow :: jstr where
  "ellipsis_arrow = [0x2026, 0x0020, 0x2192, 0x0020, 0x003C]"

definition link_label :: jstr where
  "link_label = [0x007C, 0x30EA, 0x30F3, 0x30AF, 0x003E]"

definition entry :: "nat \<Rightarrow> hit \<Rightarrow> jstr" where
  "entry idx msg =
     toString (idx + 1) @ js ''. '' @ take 30 (msg_text msg) @ ellipsis_arrow
     @ permalink msg @ link_label"

fun map_idx :: "(nat \<Rightarrow> 'a \<Rightarrow> 'b) \<Rightarrow> nat \<Rightarrow> 'a list \<Rightarrow> 'b list" where
  "map_idx f idx [] = []"
| "map_idx f idx (x # xs) = f idx x # map_idx f (idx + 1) xs"

definition responseText :: "hit list \<Rightarrow> jstr" where
  "responseText rs = join [0x000A] (map_idx entry 0 rs)"

section \<open>The message handler and its collaborators\<close>

text \<open>
  The handler \<^verbatim>\<open>userMessage\<close> talks to three services: the chat platform's Web API
  (\<^verbatim>\<open>client\<close>), the completion service (\<^verbatim>\<open>openai\<close>) and the presentation channel
  (\<^verbatim>\<open>say\<close>, \<^verbatim>\<open>setTitle\<close>, \<^verbatim>\<open>setStatus\<close>). A run is modelled by the list of calls it
  makes, in order, against a \<open>world\<close> that fixes what each awaited call answers or
  throws. Posting and logging calls are fire-and-forget and are modelled as returning.
\<close>

datatype thrown = PlatformError jstr | OtherError

datatype 'a attempt = Throws thrown | Returns 'a

datatype role = UserRole | AssistantRole

text \<open>
  Every completion request has the model \<^verbatim>\<open>gpt-4o-mini\<close>, \<^verbatim>\<open>n: 1\<close> and the system
  message \<^verbatim>\<open>DEFAULT_SYSTEM_CONTENT\<close>; what varies is the user side. The two prompts of
  the fuzzy search are template literals, represented by the template and the values
  substituted into it: the query for the keyword prompt of lines 191-213, the query
  and the numbered message list for the evaluation prompt of lines 248-258.
\<close>

datatype prompt =
    KeywordPrompt jstr
  | EvaluationPrompt jstr jstr
  | SummaryPrompt jstr jstr
  | ThreadMessages "(role \<times> jstr) list" jstr

datatype call =
    SetTitle jstr
  | SetStatus jstr
  | Say jstr
  | SayNoText
  | ChatCompletion prompt
  | SearchMessages jstr nat
  | ConversationsReplies
  | GetThreadContext
  | ConversationsHistory jstr nat
  | ConversationsJoin jstr
  | LoggerError
  | LoggerInfo nat
  | ConsoleLog

record thread_message =
  has_bot_id :: bool
  thread_text :: jstr

record history_message =
  user :: "jstr option"
  history_text :: jstr

text \<open>
  \<open>completions_create p\<close> is the \<^verbatim>\<open>choices[0].message.content\<close> of the answer to the
  request \<open>p\<close>: \<open>Returns (Some s)\<close> when it is the string \<open>s\<close>, \<open>Returns None\<close> when
  it is \<^verbatim>\<open>null\<close> or missing; \<open>Throws\<close> stands for a rejected call and for an answer without
  \<^verbatim>\<open>choices[0].message\<close>, where reading the content raises before anything else is
  done with it. \<^verbatim>\<open>say\<close> with a \<^verbatim>\<open>null\<close> text is the call \<open>SayNoText\<close>.
  \<open>search_messages i q\<close> answers the \<open>i\<close>-th
  search of the run, for the query \<open>q\<close>: \<open>Returns None\<close> is an answer with no
  \<^verbatim>\<open>messages.matches\<close>, \<open>Returns (Some ms)\<close> one with the matches \<open>ms\<close>.
\<close>

record world =
  completions_create :: "prompt \<Rightarrow> jstr option attempt"
  search_messages :: "nat \<Rightarrow> jstr \<Rightarrow> hit list option attempt"
  conversations_replies :: "thread_message list attempt"
  getThreadContext :: "jstr attempt"
  conversations_history :: "nat \<Rightarrow> history_message list attempt"
  conversations_join :: "unit attempt"

text \<open>Lines 329-334: the handler's \<^verbatim>\<open>catch\<close>.\<close>

definition on_error :: "call list" where
  "on_error = [LoggerError, Say (js ''Sorry, something went wrong!'')]"

text \<open>
  Lines 300-328, scenario 2: the thread is fetched, each message is tagged with a role,
  and the history followed by the user's text goes to the completion service.
\<close>

definition scenario2 :: "world \<Rightarrow> jstr \<Rightarrow> call list" where
  "scenario2 w message_text =
     ConversationsReplies #
     (case conversations_replies w of
        Throws e \<Rightarrow> on_error
      | Returns thread \<Rightarrow>
          (let messages =
                 ThreadMessages
                   (map (\<lambda>m. (if has_bot_id m then AssistantRole else UserRole, thread_text m))
                      thread)
                   message_text
           in ChatCompletion messages #
              (case completions_create w messages of
                 Throws e \<Rightarrow> on_error
               | Returns None \<Rightarrow> [SayNoText]
               | Returns (Some content) \<Rightarrow> [Say content])))"

text \<open>
  Lines 136-181, scenario 1 (channel summary). The history is fetched with limit 50;
  when that throws with \<^verbatim>\<open>e.data.error === 'not_in_channel'\<close> the assistant joins the
  channel and fetches again with limit 10; any other platform error is logged, after
  which reading \<^verbatim>\<open>channelHistory.messages\<close> raises; an error without \<^verbatim>\<open>data\<close> raises
  inside the inner \<^verbatim>\<open>catch\<close>.
\<close>

definition summarize :: "world \<Rightarrow> jstr \<Rightarrow> history_message list \<Rightarrow> call list" where
  "summarize w channel_id messages =
     (let llmPrompt =
            SummaryPrompt channel_id
              (concat (map (\<lambda>m. case user m of
                                    None \<Rightarrow> []
                                  | Some u \<Rightarrow>
                                      if u = [] then []
                                      else [0x000A] @ js ''<@'' @ u @ js ''> says: ''
                                           @ history_text m)
                         (rev messages)))
      in ChatCompletion llmPrompt #
         (case completions_create w llmPrompt of
            Throws e \<Rightarrow> on_error
          | Returns None \<Rightarrow> [SayNoText]
          | Returns (Some content) \<Rightarrow> [Say content]))"

definition scenario1 :: "world \<Rightarrow> call list" where
  "scenario1 w =
     GetThreadContext #
     (case getThreadContext w of
        Throws e \<Rightarrow> on_error
      | Returns channel_id \<Rightarrow>
          ConversationsHistory channel_id 50 #
          (case conversations_history w 50 of
             Returns messages \<Rightarrow> summarize w channel_id messages
           | Throws OtherError \<Rightarrow> on_error
           | Throws (PlatformError code) \<Rightarrow>
               if code = js ''not_in_channel''
               then ConversationsJoin channel_id #
                    (case conversations_join w of
                       Throws e \<Rightarrow> on_error
                     | Returns u \<Rightarrow>
                         ConversationsHistory channel_id 10 #
                         (case conversations_history w 10 of
                            Throws e \<Rightarrow> on_error
                          | Returns messages \<Rightarrow> summarize w channel_id messages))
               else LoggerError # on_error))"

section \<open>The fuzzy search\<close>

text \<open>The literals of lines 187, 229 and 287, which are Japanese, as code units.\<close>

definition usage_hint :: jstr where
  "usage_hint =
     [0x691C, 0x7D22, 0x30EF, 0x30FC, 0x30C9, 0x3092, 0x6307, 0x5B9A, 0x3057, 0x3066,
      0x304F, 0x3060, 0x3055, 0x3044, 0x3002, 0x4F8B]
     @ js '': Fuzzy search: '' @ [0x9032, 0x6357, 0x5831, 0x544A]"

definition keyword_label :: jstr where
  "keyword_label = [0x30AD, 0x30FC, 0x30EF, 0x30FC, 0x30C9]"

definition no_results :: jstr where
  "no_results =
     [0x8A72, 0x5F53, 0x3059, 0x308B, 0x30E1, 0x30C3, 0x30BB, 0x30FC, 0x30B8, 0x304C,
      0x898B, 0x3064, 0x304B, 0x308A, 0x307E, 0x305B, 0x3093, 0x3067, 0x3057, 0x305F,
      0x3002]"

text \<open>Lines 223-226: the expansion answer becomes the list \<^verbatim>\<open>keywords\<close>.\<close>

definition keywords_of :: "jstr \<Rightarrow> jstr list" where
  "keywords_of content = filter (\<lambda>k. k \<noteq> []) (map trim (split_runs content))"

text \<open>
  Lines 230-246: one search per keyword, with \<^verbatim>\<open>count: 20\<close>, inside its own
  \<^verbatim>\<open>try\<close>. The function returns the calls made and the grown \<^verbatim>\<open>allResults\<close>.
\<close>

fun search_loop :: "world \<Rightarrow> nat \<Rightarrow> jstr list \<Rightarrow> hit list \<Rightarrow> call list \<times> hit list" where
  "search_loop w i [] allResults = ([], allResults)"
| "search_loop w i (keyword # rest) allResults =
     (case search_messages w i keyword of
        Throws e \<Rightarrow>
          (case search_loop w (i + 1) rest allResults of
             (calls, pool) \<Rightarrow> (SearchMessages keyword 20 # LoggerError # calls, pool))
      | Returns None \<Rightarrow>
          (case search_loop w (i + 1) rest allResults of
             (calls, pool) \<Rightarrow> (SearchMessages keyword 20 # LoggerInfo 0 # calls, pool))
      | Returns (Some matches) \<Rightarrow>
          (case search_loop w (i + 1) rest (allResults @ matches) of
             (calls, pool) \<Rightarrow>
               (SearchMessages keyword 20 # ConsoleLog # LoggerInfo (length matches) # calls,
                pool)))"

text \<open>
  Lines 248-296, the body of \<^verbatim>\<open>if (allResults.length > 0)\<close>: the evaluation request
  with the numbered message list, then parsing, deduplication and presentation. The
  answer's content is logged (line 268) before it is split (line 271), so a \<^verbatim>\<open>null\<close>
  content is logged and then raises.
\<close>

definition numbered :: "hit list \<Rightarrow> jstr" where
  "numbered allResults =
     join [0x000A] (map_idx (\<lambda>index msg. toString (index + 1) @ js '': '' @ msg_text msg) 0 allResults)"

definition rank_and_present :: "world \<Rightarrow> jstr \<Rightarrow> hit list \<Rightarrow> call list" where
  "rank_and_present w query allResults =
     (let evaluationPrompt = EvaluationPrompt query (numbered allResults)
      in ChatCompletion evaluationPrompt #
         (case completions_create w evaluationPrompt of
            Throws e \<Rightarrow> on_error
          | Returns None \<Rightarrow> ConsoleLog # on_error
          | Returns (Some content) \<Rightarrow>
              ConsoleLog #
              (case results allResults (evaluatedIndexes content (length allResults)) of
                 Inl e \<Rightarrow> on_error
               | Inr rs \<Rightarrow>
                   if length rs = 0 then [Say no_results]
                   else [Say (responseText rs)])))"

text \<open>
  Lines 184-298. When \<^verbatim>\<open>allResults\<close> is empty the \<^verbatim>\<open>if\<close> of line 247 has no
  \<^verbatim>\<open>else\<close>: control leaves the fuzzy-search block and continues with scenario 2.
\<close>

definition fuzzy_search :: "world \<Rightarrow> jstr \<Rightarrow> call list" where
  "fuzzy_search w message_text =
     (let parts = split_char 0x003A message_text
      in if length parts < 2 then [Say usage_hint]
         else
           (let query = trim (parts ! 1);
                prompt = KeywordPrompt query
            in ChatCompletion prompt #
               (case completions_create w prompt of
                  Throws e \<Rightarrow> on_error
                | Returns None \<Rightarrow> on_error
                | Returns (Some content) \<Rightarrow>
                    (case search_loop w 0 (keywords_of content) [] of
                       (calls, allResults) \<Rightarrow>
                         ConsoleLog # Say (keyword_label @ join (js '','') (keywords_of content)) #
                         calls @
                         (if length allResults > 0 then rank_and_present w query allResults
                          else scenario2 w message_text)))))"

text \<open>Lines 115-335: the handler.\<close>

definition userMessage :: "world \<Rightarrow> jstr \<Rightarrow> call list" where
  "userMessage w message_text =
     SetTitle message_text # SetStatus (js ''is typing..'') #
     (if message_text = js ''Assistant, please summarize the activity in this channel!''
      then scenario1 w
      else if startsWith message_text (js ''Fuzzy search'') then fuzzy_search w message_text
      else scenario2 w message_text)"

section \<open>What the specification says, as definitions\<close>







text \<open>An index the filter of line 274 lets through: a number in \<open>[0, len)\<close>.\<close>

definition valid_index :: "nat \<Rightarrow> number \<Rightarrow> bool" where
  "valid_index len index \<longleftrightarrow> (case index of NaN \<Rightarrow> False | Num i \<Rightarrow> 0 \<le> i \<and> i < int len)"

text \<open>
  The specification's wording of the deduplication: the messages the index sequence
  refers to, in the order of the sequence, and the walk over them that keeps a message
  only if its permalink has not been kept before.
\<close>

definition referenced :: "hit list \<Rightarrow> number list \<Rightarrow> hit list" where
  "referenced allResults indexes = List.map_filter (array_get allResults) indexes"

fun first_wins :: "hit list \<Rightarrow> jstr list \<Rightarrow> hit list" where
  "first_wins [] kept = []"
| "first_wins (msg # rest) kept =
     (if permalink msg \<in> set kept then first_wins rest kept
      else msg # first_wins rest (kept @ [permalink msg]))"

text \<open>
  A permalink for which the dictionary object behaves as a plain insertion-ordered map:
  not an array index and neither of the two names with a meaning of their own. The
  permalinks of the chat platform are URLs and are all of this kind.
\<close>

definition ordinary_key :: "jstr \<Rightarrow> bool" where
  "ordinary_key k \<longleftrightarrow>
     \<not> isArrayIndex k \<and> k \<noteq> js ''__proto__'' \<and> k \<noteq> js ''hasOwnProperty''"

text \<open>
  The invariant of the deduplication loop: no key twice, every property stored under
  the permalink of its message, every message taken from the pool.
\<close>

definition well_keyed :: "hit list \<Rightarrow> js_object \<Rightarrow> bool" where
  "well_keyed pool obj \<longleftrightarrow>
     distinct (map fst obj)
     \<and> list_all (\<lambda>p. fst p = permalink (snd p) \<and> snd p \<in> set pool) obj"

text \<open>
  The specification's wording of the keyword parsing: the answer is split at every
  line feed and at every comma, each token is trimmed, and empty tokens are discarded.
\<close>

fun split_each :: "(unit16 \<Rightarrow> bool) \<Rightarrow> jstr \<Rightarrow> jstr list" where
  "split_each P [] = [[]]"
| "split_each P (c # cs) =
     (if P c then [] # split_each P cs
      else (case split_each P cs of
              t # ts \<Rightarrow> (c # t) # ts
            | [] \<Rightarrow> [[c]]))"

definition spec_keywords :: "jstr \<Rightarrow> jstr list" where
  "spec_keywords content = filter (\<lambda>k. k \<noteq> []) (map trim (split_each isSeparator content))"

text \<open>
  The specification's wording of one presented line: the ellipsis marker is there if
  and only if the text was longer than the 30 code units shown.
\<close>

definition spec_entry :: "nat \<Rightarrow> hit \<Rightarrow> jstr" where
  "spec_entry idx msg =
     toString (idx + 1) @ js ''. '' @ take 30 (msg_text msg)
     @ (if 30 < length (msg_text msg) then [0x2026] else [])
     @ [0x0020, 0x2192, 0x0020, 0x003C] @ permalink msg @ link_label"

text \<open>
  The hits one search contributes, as the specification has it: a search that throws,
  or answers without matches, contributes none.
\<close>

definition hits_of :: "hit list option attempt \<Rightarrow> hit list" where
  "hits_of r = (case r of Throws e \<Rightarrow> [] | Returns None \<Rightarrow> [] | Returns (Some matches) \<Rightarrow> matches)"

text \<open>Calls that only write to a log, as opposed to calls to a service.\<close>

definition is_logging :: "call \<Rightarrow> bool" where
  "is_logging c \<longleftrightarrow> (case c of LoggerError \<Rightarrow> True | LoggerInfo n \<Rightarrow> True | ConsoleLog \<Rightarrow> True | _ \<Rightarrow> False)"

text \<open>The queries of the expansion requests (keyword prompts) made during a run.\<close>

definition expansion_requests :: "call list \<Rightarrow> jstr list" where
  "expansion_requests calls =
     concat (map (\<lambda>c. case c of ChatCompletion (KeywordPrompt q) \<Rightarrow> [q] | _ \<Rightarrow> []) calls)"

subsection \<open>Worlds used as concrete inputs\<close>

text \<open>
  A run in which the expansion answers with the query itself, every search throws, the
  thread holds the user's message, and any other completion answers \<^verbatim>\<open>ok\<close>.
\<close>

definition all_fail_world :: world where
  "all_fail_world =
     \<lparr>completions_create =
        (\<lambda>p. case p of KeywordPrompt q \<Rightarrow> Returns (Some q) | _ \<Rightarrow> Returns (Some (js ''ok''))),
      search_messages = (\<lambda>i q. Throws OtherError),
      conversations_replies =
        Returns [\<lparr>has_bot_id = False, thread_text = js ''Fuzzy search: foo''\<rparr>],
      getThreadContext = Throws OtherError,
      conversations_history = (\<lambda>limit. Throws OtherError),
      conversations_join = Throws OtherError\<rparr>"

text \<open>
  A run in which every search, and the first history fetch, throw the platform error
  \<^verbatim>\<open>not_in_channel\<close>, while joining and the second history fetch succeed.
\<close>

definition not_in_channel_world :: world where
  "not_in_channel_world =
     \<lparr>completions_create = (\<lambda>p. Returns (Some (js ''q''))),
      search_messages = (\<lambda>i q. Throws (PlatformError (js ''not_in_channel''))),
      conversations_replies = Returns [],
      getThreadContext = Returns (js ''C1''),
      conversations_history =
        (\<lambda>limit. if limit = 50 then Throws (PlatformError (js ''not_in_channel''))
                  else Returns []),
      conversations_join = Returns ()\<rparr>"

text \<open>
  A run in which the expansion answers \<^verbatim>\<open>a,b,c\<close>, the second search throws and the
  other searches return one match each.
\<close>

definition partial_failure_world :: world where
  "partial_failure_world =
     \<lparr>completions_create =
        (\<lambda>p. case p of
               KeywordPrompt q \<Rightarrow> Returns (Some (js ''a,b,c''))
             | _ \<Rightarrow> Returns (Some (js ''2, 1''))),
      search_messages =
        (\<lambda>i q. if i = 1 then Throws OtherError
               else Returns (Some [\<lparr>msg_text = q, permalink = js ''p'' @ q\<rparr>])),
      conversations_replies = Returns [],
      getThreadContext = Throws OtherError,
      conversations_history = (\<lambda>limit. Throws OtherError),
      conversations_join = Throws OtherError\<rparr>"

section \<open>Parsing the ranker's answer\<close>


























section \<open>Deduplication and truncation\<close>

lemma array_get_mem: "array_get xs index = Some x \<Longrightarrow> x \<in> set xs"
  by (auto simp: array_get_def split: number.splits if_splits)

lemma array_get_valid: "valid_index (length xs) index \<Longrightarrow> array_get xs index \<noteq> None"
  by (auto simp: array_get_def valid_index_def split: number.splits)

lemma well_keyed_set_property:
  "well_keyed pool obj \<Longrightarrow> \<not> hasOwnProperty obj (permalink msg) \<Longrightarrow> msg \<in> set pool \<Longrightarrow>
   well_keyed pool (set_property obj (permalink msg) msg)"
  by (auto simp: well_keyed_def set_property_def hasOwnProperty_def)

lemma uniqueResults_well_keyed:
  "uniqueResults pool indexes obj = Inr obj' \<Longrightarrow> well_keyed pool obj \<Longrightarrow> well_keyed pool obj'"
proof (induction indexes arbitrary: obj)
  case Nil
  then show ?case by simp
next
  case (Cons index rest)
  show ?case
  proof (cases "array_get pool index")
    case None
    with Cons show ?thesis by simp
  next
    case (Some msg)
    then have mem: "msg \<in> set pool" by (rule array_get_mem)
    show ?thesis
    proof (cases "hasOwnProperty obj (permalink msg)")
      case True
      with Cons Some show ?thesis by (simp split: if_splits)
    next
      case False
      with Cons.prems Some
      have "uniqueResults pool rest (set_property obj (permalink msg) msg) = Inr obj'"
        by (simp split: if_splits)
      moreover have "well_keyed pool (set_property obj (permalink msg) msg)"
        using Cons.prems(2) False mem by (rule well_keyed_set_property)
      ultimately show ?thesis by (rule Cons.IH)
    qed
  qed
qed

lemma Object_values_set: "set (Object_values obj) = snd ` set obj"
  by (auto simp: Object_values_def)

lemma map_permalink_snd:
  "list_all (\<lambda>p. fst p = permalink (snd p) \<and> Q p) xs \<Longrightarrow> map permalink (map snd xs) = map fst xs"
  by (induction xs) auto

lemma distinct_map_fst_sort_key:
  "distinct (map fst xs) \<Longrightarrow> distinct (map fst (sort_key f xs))"
  by (simp add: distinct_map)

lemma Object_values_distinct:
  assumes "well_keyed pool obj"
  shows "distinct (map permalink (Object_values obj))"
proof -
  let ?A = "sort_key (\<lambda>p. mathInt 10 (fst p)) (filter (\<lambda>p. isArrayIndex (fst p)) obj)"
  let ?B = "filter (\<lambda>p. \<not> isArrayIndex (fst p)) obj"
  from assms have d: "distinct (map fst obj)"
    and k: "list_all (\<lambda>p. fst p = permalink (snd p) \<and> snd p \<in> set pool) obj"
    by (simp_all add: well_keyed_def)
  have kA: "list_all (\<lambda>p. fst p = permalink (snd p) \<and> snd p \<in> set pool) ?A"
    using k by (auto simp: list_all_iff)
  have kB: "list_all (\<lambda>p. fst p = permalink (snd p) \<and> snd p \<in> set pool) ?B"
    using k by (auto simp: list_all_iff)
  have "map permalink (Object_values obj) = map permalink (map snd ?A) @ map permalink (map snd ?B)"
    by (simp only: Object_values_def map_append)
  then have "map permalink (Object_values obj) = map fst ?A @ map fst ?B"
    by (simp only: map_permalink_snd [OF kA] map_permalink_snd [OF kB])
  moreover have "distinct (map fst ?A)"
    using d by (intro distinct_map_fst_sort_key distinct_map_filter)
  moreover have "distinct (map fst ?B)"
    using d by (rule distinct_map_filter)
  moreover have "set (map fst ?A) \<inter> set (map fst ?B) = {}"
    by auto
  ultimately show ?thesis by simp
qed

lemma well_keyed_Nil: "well_keyed pool []"
  by (simp add: well_keyed_def)

lemma results_sound:
  assumes "results pool indexes = Inr rs"
  shows "set rs \<subseteq> set pool \<and> distinct (map permalink rs) \<and> length rs \<le> 15"
proof -
  from assms obtain obj where u: "uniqueResults pool indexes [] = Inr obj"
    and rs: "rs = take 15 (Object_values obj)"
    by (auto simp: results_def split: sum.splits)
  have wk: "well_keyed pool obj"
    using u well_keyed_Nil by (rule uniqueResults_well_keyed)
  have "set (Object_values obj) \<subseteq> set pool"
    using wk by (auto simp: Object_values_set well_keyed_def list_all_iff)
  then have "set rs \<subseteq> set pool"
    unfolding rs using set_take_subset by fastforce
  moreover have "distinct (map permalink rs)"
    unfolding rs take_map [symmetric] using Object_values_distinct [OF wk] by (rule distinct_take)
  ultimately show ?thesis by (simp add: rs)
qed

lemma uniqueResults_ordinary:
  "list_all (\<lambda>m. ordinary_key (permalink m)) (referenced pool indexes) \<Longrightarrow>
   \<not> hasOwnProperty obj (js ''hasOwnProperty'') \<Longrightarrow>
   uniqueResults pool indexes obj
   = Inr (obj @ map (\<lambda>m. (permalink m, m)) (first_wins (referenced pool indexes) (map fst obj)))"
proof (induction indexes arbitrary: obj)
  case Nil
  then show ?case by (simp add: referenced_def List.map_filter_simps)
next
  case (Cons index rest)
  show ?case
  proof (cases "array_get pool index")
    case None
    then have "referenced pool (index # rest) = referenced pool rest"
      by (simp add: referenced_def List.map_filter_simps)
    with Cons None show ?thesis by simp
  next
    case (Some msg)
    then have r: "referenced pool (index # rest) = msg # referenced pool rest"
      by (simp add: referenced_def List.map_filter_simps)
    with Cons.prems have ok: "ordinary_key (permalink msg)"
      and rest: "list_all (\<lambda>m. ordinary_key (permalink m)) (referenced pool rest)"
      by simp_all
    show ?thesis
    proof (cases "hasOwnProperty obj (permalink msg)")
      case True
      then have "permalink msg \<in> set (map fst obj)" by (simp add: hasOwnProperty_def)
      with Cons.IH [OF rest Cons.prems(2)] Some True Cons.prems(2) r show ?thesis by simp
    next
      case False
      let ?obj = "obj @ [(permalink msg, msg)]"
      have sp: "set_property obj (permalink msg) msg = ?obj"
        using ok False by (simp add: set_property_def ordinary_key_def)
      have nh: "\<not> hasOwnProperty ?obj (js ''hasOwnProperty'')"
        using ok Cons.prems(2) by (auto simp: hasOwnProperty_def ordinary_key_def)
      from False have nm: "permalink msg \<notin> set (map fst obj)" by (simp add: hasOwnProperty_def)
      show ?thesis
        using Cons.IH [OF rest nh] Some False Cons.prems(2) r sp nm by simp
    qed
  qed
qed

lemma first_wins_mem: "m \<in> set (first_wins ms kept) \<Longrightarrow> m \<in> set ms"
  by (induction ms arbitrary: kept) (auto split: if_splits)

lemma Object_values_ordinary:
  "list_all (\<lambda>m. \<not> isArrayIndex (permalink m)) ms \<Longrightarrow>
   Object_values (map (\<lambda>m. (permalink m, m)) ms) = ms"
  by (induction ms) (auto simp: Object_values_def filter_map comp_def list_all_iff filter_empty_conv)

lemma results_ordinary:
  assumes "list_all (\<lambda>m. ordinary_key (permalink m)) (referenced pool indexes)"
  shows "results pool indexes = Inr (take 15 (first_wins (referenced pool indexes) []))"
proof -
  have "uniqueResults pool indexes []
        = Inr (map (\<lambda>m. (permalink m, m)) (first_wins (referenced pool indexes) []))"
    using uniqueResults_ordinary [OF assms, of "[]"] by (simp add: hasOwnProperty_def)
  moreover have "list_all (\<lambda>m. \<not> isArrayIndex (permalink m)) (first_wins (referenced pool indexes) [])"
    using assms by (auto simp: list_all_iff ordinary_key_def dest: first_wins_mem)
  ultimately show ?thesis
    by (simp add: results_def Object_values_ordinary)
qed


lemma referenced_refers:
  "list_all (valid_index (length pool)) indexes \<Longrightarrow>
   list_all2 (\<lambda>index m. array_get pool index = Some m) indexes (referenced pool indexes)"
  unfolding referenced_def
  by (induction indexes) (auto simp: List.map_filter_simps dest: array_get_valid split: option.splits)

lemma url_ordinary_key: "ordinary_key (js ''https://'' @ r)"
  by (simp add: ordinary_key_def isArrayIndex_def isRadixDigit_def digit_value_def js_def)

lemma referenced_subset: "set (referenced pool indexes) \<subseteq> set pool"
  unfolding referenced_def
  by (induction indexes) (auto simp: List.map_filter_simps dest: array_get_mem split: option.splits)

text \<open>
  C1. For every pool of search matches, whose permalinks are URLs and hence ordinary
  keys, and every validated index sequence: each index refers to a message of the
  pool, and the final result is the first 15 messages of the walk over the index
  sequence that keeps a referenced message only if its permalink has not been kept
  before. It is drawn from the pool, contains no permalink twice, and its order is the
  order of first references in the index sequence.
\<close>

theorem results_first_wins:
  assumes "list_all (valid_index (length allResults)) indexes"
    and "list_all (\<lambda>m. ordinary_key (permalink m)) allResults"
  shows "list_all2 (\<lambda>index m. array_get allResults index = Some m) indexes
           (referenced allResults indexes)
       \<and> results allResults indexes
         = Inr (take 15 (first_wins (referenced allResults indexes) []))
       \<and> (\<forall>rs. results allResults indexes = Inr rs \<longrightarrow>
             set rs \<subseteq> set allResults \<and> distinct (map permalink rs))"
proof -
  have "list_all (\<lambda>m. ordinary_key (permalink m)) (referenced allResults indexes)"
    using assms(2) referenced_subset [of allResults indexes] by (auto simp: list_all_iff)
  then have "results allResults indexes
             = Inr (take 15 (first_wins (referenced allResults indexes) []))"
    by (rule results_ordinary)
  then show ?thesis
    using assms(1) by (auto simp: referenced_refers dest: results_sound)
qed

text \<open>
  C8. For every pool and every index sequence, a final result list never has more than
  15 entries; with ordinary permalinks a result is always produced and its length is
  the smaller of 15 and the number of distinct permalinks referenced, so the cut at 15
  applies even when more valid unique indices are available.
\<close>

theorem results_length:
  "(\<forall>rs. results allResults indexes = Inr rs \<longrightarrow> length rs \<le> 15)
   \<and> (list_all (\<lambda>m. ordinary_key (permalink m)) (referenced allResults indexes) \<longrightarrow>
        (\<exists>rs. results allResults indexes = Inr rs
              \<and> length rs = min 15 (length (first_wins (referenced allResults indexes) []))))"
  by (auto simp: results_ordinary dest: results_sound)

lemma url_pool_ordinary:
  "list_all (\<lambda>m. ordinary_key (permalink m))
     [\<lparr>msg_text = js ''A'', permalink = js ''https://x/1''\<rparr>,
      \<lparr>msg_text = js ''B'', permalink = js ''https://x/2''\<rparr>]"
  by (simp add: ordinary_key_def isArrayIndex_def isRadixDigit_def digit_value_def js_def)

lemma url_pool_referenced:
  "referenced [\<lparr>msg_text = js ''A'', permalink = js ''https://x/1''\<rparr>,
               \<lparr>msg_text = js ''B'', permalink = js ''https://x/2''\<rparr>]
     [Num 1, Num 0, Num 0]
   = [\<lparr>msg_text = js ''B'', permalink = js ''https://x/2''\<rparr>,
      \<lparr>msg_text = js ''A'', permalink = js ''https://x/1''\<rparr>,
      \<lparr>msg_text = js ''A'', permalink = js ''https://x/1''\<rparr>]"
  by (simp add: referenced_def List.map_filter_simps array_get_def)

lemma url_pool_distinct:
  "js ''https://x/2'' \<noteq> js ''https://x/1''" "js ''https://x/1'' \<noteq> js ''https://x/2''"
  by (simp_all add: js_def)

theorem results_first_wins_witness:
  "list_all (valid_index 2) [Num 1, Num 0, Num 0]
   \<and> results [\<lparr>msg_text = js ''A'', permalink = js ''https://x/1''\<rparr>,
              \<lparr>msg_text = js ''B'', permalink = js ''https://x/2''\<rparr>]
        [Num 1, Num 0, Num 0]
     = Inr [\<lparr>msg_text = js ''B'', permalink = js ''https://x/2''\<rparr>,
            \<lparr>msg_text = js ''A'', permalink = js ''https://x/1''\<rparr>]"
proof -
  have v: "list_all (valid_index
             (length [\<lparr>msg_text = js ''A'', permalink = js ''https://x/1''\<rparr>,
                      \<lparr>msg_text = js ''B'', permalink = js ''https://x/2''\<rparr>]))
             [Num 1, Num 0, Num 0]"
    by (simp add: valid_index_def)
  from results_first_wins [OF v url_pool_ordinary] show ?thesis
    unfolding url_pool_referenced using url_pool_distinct by (simp add: valid_index_def)
qed

lemma sixteen_pool:
  "map (\<lambda>c. \<lparr>msg_text = [], permalink = [c]\<rparr>) (js ''abcdefghijklmnop'')
   = [\<lparr>msg_text = [], permalink = [0x61]\<rparr>, \<lparr>msg_text = [], permalink = [0x62]\<rparr>,
      \<lparr>msg_text = [], permalink = [0x63]\<rparr>, \<lparr>msg_text = [], permalink = [0x64]\<rparr>,
      \<lparr>msg_text = [], permalink = [0x65]\<rparr>, \<lparr>msg_text = [], permalink = [0x66]\<rparr>,
      \<lparr>msg_text = [], permalink = [0x67]\<rparr>, \<lparr>msg_text = [], permalink = [0x68]\<rparr>,
      \<lparr>msg_text = [], permalink = [0x69]\<rparr>, \<lparr>msg_text = [], permalink = [0x6A]\<rparr>,
      \<lparr>msg_text = [], permalink = [0x6B]\<rparr>, \<lparr>msg_text = [], permalink = [0x6C]\<rparr>,
      \<lparr>msg_text = [], permalink = [0x6D]\<rparr>, \<lparr>msg_text = [], permalink = [0x6E]\<rparr>,
      \<lparr>msg_text = [], permalink = [0x6F]\<rparr>, \<lparr>msg_text = [], permalink = [0x70]\<rparr>]"
  by (simp add: js_def)

lemma sixteen_referenced:
  "referenced (map (\<lambda>c. \<lparr>msg_text = [], permalink = [c]\<rparr>) (js ''abcdefghijklmnop''))
     (map Num [0, 1, 2, 3, 4, 5, 6, 7, 8, 9, 10, 11, 12, 13, 14, 15])
   = map (\<lambda>c. \<lparr>msg_text = [], permalink = [c]\<rparr>) (js ''abcdefghijklmnop'')"
  unfolding sixteen_pool by (simp add: referenced_def List.map_filter_simps array_get_def)

lemma sixteen_ordinary:
  "list_all (\<lambda>m. ordinary_key (permalink m))
     (map (\<lambda>c. \<lparr>msg_text = [], permalink = [c]\<rparr>) (js ''abcdefghijklmnop''))"
  unfolding sixteen_pool
  by (simp add: ordinary_key_def isArrayIndex_def isRadixDigit_def digit_value_def js_def)

lemma sixteen_first_wins:
  "length (first_wins (map (\<lambda>c. \<lparr>msg_text = [], permalink = [c]\<rparr>) (js ''abcdefghijklmnop'')) []) = 16"
  unfolding sixteen_pool by simp

theorem results_length_witness:
  "length (first_wins
     (referenced (map (\<lambda>c. \<lparr>msg_text = [], permalink = [c]\<rparr>) (js ''abcdefghijklmnop''))
        (map Num [0, 1, 2, 3, 4, 5, 6, 7, 8, 9, 10, 11, 12, 13, 14, 15])) []) = 16
   \<and> (\<exists>rs. results (map (\<lambda>c. \<lparr>msg_text = [], permalink = [c]\<rparr>) (js ''abcdefghijklmnop''))
               (map Num [0, 1, 2, 3, 4, 5, 6, 7, 8, 9, 10, 11, 12, 13, 14, 15]) = Inr rs
           \<and> length rs = 15)"
  using results_length [of "map (\<lambda>c. \<lparr>msg_text = [], permalink = [c]\<rparr>) (js ''abcdefghijklmnop'')"
          "map Num [0, 1, 2, 3, 4, 5, 6, 7, 8, 9, 10, 11, 12, 13, 14, 15]"]
  unfolding sixteen_referenced using sixteen_ordinary sixteen_first_wins by simp

section \<open>Parsing the expansion answer\<close>

lemma split_each_nonempty: "split_each P s \<noteq> []"
  by (induction s) (auto split: list.splits)

lemma split_runs_nonempty: "split_runs s \<noteq> []"
  by (induction s rule: split_runs.induct) (auto split: list.splits)

lemma split_each_dropWhile:
  "filter (\<lambda>t. t \<noteq> []) (split_each P (dropWhile P cs)) = filter (\<lambda>t. t \<noteq> []) (split_each P cs)"
  by (induction cs) auto

lemma split_runs_each:
  "hd (split_runs s) = hd (split_each isSeparator s)
   \<and> filter (\<lambda>t. t \<noteq> []) (tl (split_runs s)) = filter (\<lambda>t. t \<noteq> []) (tl (split_each isSeparator s))"
proof (induction s rule: split_runs.induct)
  case 1
  then show ?case by simp
next
  case (2 c cs)
  show ?case
  proof (cases "isSeparator c")
    case True
    let ?d = "dropWhile isSeparator cs"
    from 2(1) [OF True] have
      h: "hd (split_runs ?d) = hd (split_each isSeparator ?d)" and
      t: "filter (\<lambda>t. t \<noteq> []) (tl (split_runs ?d)) = filter (\<lambda>t. t \<noteq> []) (tl (split_each isSeparator ?d))"
      by simp_all
    have "filter (\<lambda>t. t \<noteq> []) (split_runs ?d) = filter (\<lambda>t. t \<noteq> []) (split_each isSeparator ?d)"
      using h t split_runs_nonempty [of ?d] split_each_nonempty [of isSeparator ?d]
      by (cases "split_runs ?d"; cases "split_each isSeparator ?d") auto
    then show ?thesis
      using True by (simp add: split_each_dropWhile)
  next
    case False
    from 2(2) [OF False] show ?thesis
      using False split_runs_nonempty [of cs] split_each_nonempty [of isSeparator cs]
      by (cases "split_runs cs"; cases "split_each isSeparator cs") auto
  qed
qed

lemma split_runs_each_filter:
  "filter (\<lambda>t. t \<noteq> []) (split_runs s) = filter (\<lambda>t. t \<noteq> []) (split_each isSeparator s)"
  using split_runs_each [of s] split_runs_nonempty [of s] split_each_nonempty [of isSeparator s]
  by (cases "split_runs s"; cases "split_each isSeparator s") auto

lemma trim_Nil: "trim [] = []"
  by (simp add: trim_def)

lemma filter_map_trim:
  "filter (\<lambda>k. k \<noteq> []) (map trim ts) = filter (\<lambda>k. k \<noteq> []) (map trim (filter (\<lambda>t. t \<noteq> []) ts))"
  by (induction ts) (auto simp: trim_Nil)

text \<open>
  C7 (amended). For every expansion answer, the keyword list is what the
  specification describes: the answer split at line feeds and commas, each token
  trimmed, empty tokens discarded, in the answer's order. The code puts no bound on the
  list: it has one keyword for every token that is not blank.
\<close>

theorem keywords_of_spec:
  "keywords_of content = spec_keywords content
   \<and> length (keywords_of content)
       = length (filter (\<lambda>t. trim t \<noteq> []) (split_each isSeparator content))"
proof -
  have "keywords_of content = spec_keywords content"
    unfolding keywords_of_def spec_keywords_def
    by (subst filter_map_trim, subst (2) filter_map_trim) (simp only: split_runs_each_filter)
  then show ?thesis
    by (simp add: spec_keywords_def filter_map comp_def)
qed

lemma eleven_split:
  "split_runs (js ''a,b,c,d,e,f,g,h,i,j,k'')
   = [js ''a'', js ''b'', js ''c'', js ''d'', js ''e'', js ''f'', js ''g'', js ''h'', js ''i'', js ''j'', js ''k'']"
  by (simp add: js_def isSeparator_def)

lemma trim_letter:
  "trim (js ''a'') = js ''a''" "trim (js ''b'') = js ''b''" "trim (js ''c'') = js ''c''"
  "trim (js ''d'') = js ''d''" "trim (js ''e'') = js ''e''" "trim (js ''f'') = js ''f''"
  "trim (js ''g'') = js ''g''" "trim (js ''h'') = js ''h''" "trim (js ''i'') = js ''i''"
  "trim (js ''j'') = js ''j''" "trim (js ''k'') = js ''k''"
  by (simp_all add: trim_def js_def isWhiteSpace_def)

text \<open>
  The bound of 10 of C7 is only asked of the completion service in the prompt: an
  answer with eleven tokens gives eleven keywords.
\<close>

theorem keywords_of_cap_counterexample:
  "keywords_of (js ''a,b,c,d,e,f,g,h,i,j,k'')
   = [js ''a'', js ''b'', js ''c'', js ''d'', js ''e'', js ''f'', js ''g'', js ''h'', js ''i'', js ''j'', js ''k'']
   \<and> length (keywords_of (js ''a,b,c,d,e,f,g,h,i,j,k'')) = 11"
  unfolding keywords_of_def eleven_split by (simp add: trim_letter) (simp add: js_def)

lemma ex_kw_split:
  "split_runs (js '' a b , c,'' @ [0x000A] @ js '' d  '') = [js '' a b '', js '' c'', js '' d  '']"
  "split_each isSeparator (js '' a b , c,'' @ [0x000A] @ js '' d  '')
   = [js '' a b '', js '' c'', [], js '' d  '']"
  by (simp_all add: js_def isSeparator_def)

lemma ex_kw_trim:
  "trim (js '' a b '') = js ''a b''" "trim (js '' c'') = js ''c''" "trim (js '' d  '') = js ''d''"
  by (simp_all add: trim_def js_def isWhiteSpace_def)

lemma ex_kw: "keywords_of (js '' a b , c,'' @ [0x000A] @ js '' d  '') = [js ''a b'', js ''c'', js ''d'']"
  unfolding keywords_of_def ex_kw_split by (simp add: ex_kw_trim) (simp add: js_def)

theorem keywords_of_spec_witness:
  "spec_keywords (js '' a b , c,'' @ [0x000A] @ js '' d  '') = [js ''a b'', js ''c'', js ''d'']
   \<and> length (filter (\<lambda>t. trim t \<noteq> [])
        (split_each isSeparator (js '' a b , c,'' @ [0x000A] @ js '' d  ''))) = 3"
  using keywords_of_spec [of "js '' a b , c,'' @ [0x000A] @ js '' d  ''"]
  unfolding ex_kw by simp

section \<open>The presenter\<close>

lemma map_idx_nth:
  "map_idx f k xs = map (\<lambda>i. f (k + i) (xs ! i)) [0..<length xs]"
proof (induction xs arbitrary: k)
  case Nil
  then show ?case by simp
next
  case (Cons x xs)
  have "[0..<length (x # xs)] = 0 # map Suc [0..<length xs]"
    by (simp add: upt_conv_Cons map_Suc_upt del: upt_Suc)
  then show ?case
    by (simp add: Cons.IH comp_def del: upt_Suc)
qed

text \<open>
  C9 (amended). The presenter's output is a function of the result list alone: the
  entries for the positions \<open>0, ..., length rs - 1\<close> joined by line feeds, the entry
  of position \<open>i\<close> being the decimal \<open>i + 1\<close>, a full stop and a space, the first 30
  code units of the text, the ellipsis marker and the arrow (always, whatever the
  length of the text), and the permalink inside the link markup.
\<close>

theorem responseText_lines:
  "responseText rs
   = join [0x000A]
       (map (\<lambda>i. toString (i + 1) @ js ''. '' @ take 30 (msg_text (rs ! i))
                  @ [0x2026, 0x0020, 0x2192, 0x0020, 0x003C] @ permalink (rs ! i)
                  @ [0x007C, 0x30EA, 0x30F3, 0x30AF, 0x003E])
          [0..<length rs])"
  by (simp add: responseText_def map_idx_nth entry_def ellipsis_arrow_def link_label_def)

lemma toString_digit: "n < 10 \<Longrightarrow> toString n = [of_nat (48 + n)]"
  by (subst toString.simps) simp

lemma ex_response:
  "responseText [\<lparr>msg_text = js ''hi'', permalink = js ''p''\<rparr>,
                 \<lparr>msg_text = js ''0123456789012345678901234567890123'', permalink = js ''q''\<rparr>]
   = js ''1. hi'' @ [0x2026, 0x0020, 0x2192, 0x0020] @ js ''<p|'' @ [0x30EA, 0x30F3, 0x30AF]
     @ js ''>'' @ [0x000A] @ js ''2. 012345678901234567890123456789''
     @ [0x2026, 0x0020, 0x2192, 0x0020] @ js ''<q|'' @ [0x30EA, 0x30F3, 0x30AF] @ js ''>''"
  by (simp add: responseText_def entry_def toString_digit ellipsis_arrow_def link_label_def js_def)

theorem responseText_lines_witness:
  "join [0x000A]
       (map (\<lambda>i. toString (i + 1) @ js ''. ''
                  @ take 30 (msg_text ([\<lparr>msg_text = js ''hi'', permalink = js ''p''\<rparr>,
                      \<lparr>msg_text = js ''0123456789012345678901234567890123'', permalink = js ''q''\<rparr>] ! i))
                  @ [0x2026, 0x0020, 0x2192, 0x0020, 0x003C]
                  @ permalink ([\<lparr>msg_text = js ''hi'', permalink = js ''p''\<rparr>,
                      \<lparr>msg_text = js ''0123456789012345678901234567890123'', permalink = js ''q''\<rparr>] ! i)
                  @ [0x007C, 0x30EA, 0x30F3, 0x30AF, 0x003E])
          [0..<2])
   = js ''1. hi'' @ [0x2026, 0x0020, 0x2192, 0x0020] @ js ''<p|'' @ [0x30EA, 0x30F3, 0x30AF]
     @ js ''>'' @ [0x000A] @ js ''2. 012345678901234567890123456789''
     @ [0x2026, 0x0020, 0x2192, 0x0020] @ js ''<q|'' @ [0x30EA, 0x30F3, 0x30AF] @ js ''>''"
  using responseText_lines [of "[\<lparr>msg_text = js ''hi'', permalink = js ''p''\<rparr>,
          \<lparr>msg_text = js ''0123456789012345678901234567890123'', permalink = js ''q''\<rparr>]"]
  unfolding ex_response by (simp add: upt_conv_Cons)

text \<open>
  C9 fails as stated on a text that is not truncated: the two-letter text is shown in
  full and is still followed by the ellipsis marker U+2026, which the line described
  by the specification does not have.
\<close>

theorem responseText_ellipsis_counterexample:
  "length (msg_text \<lparr>msg_text = js ''hi'', permalink = js ''p''\<rparr>) \<le> 30
   \<and> responseText [\<lparr>msg_text = js ''hi'', permalink = js ''p''\<rparr>]
       = js ''1. hi'' @ [0x2026, 0x0020, 0x2192, 0x0020] @ js ''<p|'' @ [0x30EA, 0x30F3, 0x30AF] @ js ''>''
   \<and> join [0x000A] (map_idx spec_entry 0 [\<lparr>msg_text = js ''hi'', permalink = js ''p''\<rparr>])
       = js ''1. hi'' @ [0x0020, 0x2192, 0x0020] @ js ''<p|'' @ [0x30EA, 0x30F3, 0x30AF] @ js ''>''"
  by (simp add: responseText_def entry_def spec_entry_def toString_digit ellipsis_arrow_def link_label_def js_def)

section \<open>The handler's calls\<close>

lemma search_loop_pool:
  "snd (search_loop w i ks acc)
   = acc @ concat (map (\<lambda>(j, k). hits_of (search_messages w j k)) (enumerate i ks))"
  by (induction ks arbitrary: i acc)
     (simp_all add: hits_of_def case_prod_beta split: attempt.splits option.splits)

lemma search_loop_calls:
  "filter (\<lambda>c. \<not> is_logging c) (fst (search_loop w i ks acc)) = map (\<lambda>k. SearchMessages k 20) ks"
  by (induction ks arbitrary: i acc)
     (simp_all add: is_logging_def case_prod_beta split: attempt.splits option.splits)

lemma search_loop_no_expansion: "expansion_requests (fst (search_loop w i ks acc)) = []"
  by (induction ks arbitrary: i acc)
     (simp_all add: expansion_requests_def case_prod_beta split: attempt.splits option.splits)

lemma expansion_requests_append:
  "expansion_requests (xs @ ys) = expansion_requests xs @ expansion_requests ys"
  by (simp add: expansion_requests_def)

lemma on_error_no_expansion: "expansion_requests on_error = []"
  by (simp add: expansion_requests_def on_error_def)

lemma scenario2_no_expansion: "expansion_requests (scenario2 w txt) = []"
  by (simp add: scenario2_def Let_def expansion_requests_def on_error_def
        split: attempt.splits option.splits)

lemma rank_and_present_no_expansion: "expansion_requests (rank_and_present w q pool) = []"
  by (simp add: rank_and_present_def Let_def expansion_requests_def on_error_def
        split: attempt.splits option.splits sum.splits)

lemma split_char_nonempty: "split_char sep s \<noteq> []"
  by (induction s) (auto split: list.splits)

lemma split_char_append:
  "sep \<notin> set a \<Longrightarrow> split_char sep (a @ sep # rest) = a # split_char sep rest"
  by (induction a) auto

lemma split_char_none: "sep \<notin> set a \<Longrightarrow> split_char sep a = [a]"
  by (induction a) auto

lemma expansion_requests_Cons:
  "expansion_requests [] = []"
  "expansion_requests (c # cs)
   = (case c of ChatCompletion (KeywordPrompt q) \<Rightarrow> [q] | _ \<Rightarrow> []) @ expansion_requests cs"
  by (simp_all add: expansion_requests_def)

lemma fuzzy_search_expansion:
  assumes "split_char 0x003A txt = p0 # p1 # ps"
  shows "expansion_requests (fuzzy_search w txt) = [trim p1]"
  using assms
  by (simp add: fuzzy_search_def Let_def expansion_requests_Cons expansion_requests_append
        on_error_no_expansion search_loop_no_expansion scenario2_no_expansion
        rank_and_present_no_expansion case_prod_beta
        split: attempt.splits option.splits)


lemma fuzzy_search_head:
  assumes "split_char 0x003A txt = p0 # p1 # ps"
  shows "take 1 (fuzzy_search w txt) = [ChatCompletion (KeywordPrompt (trim p1))]"
  using assms by (simp add: fuzzy_search_def Let_def)

lemma fuzzy_not_summary:
  "startsWith txt (js ''Fuzzy search'') \<Longrightarrow>
   txt \<noteq> js ''Assistant, please summarize the activity in this channel!''"
  by (auto simp: startsWith_def js_def)

text \<open>
  C10. For every message that starts with the command label and has the form
  \<open>a : b : c\<close> with no colon in \<open>a\<close> and none in \<open>b\<close>, the handler's third call is
  the expansion request for the trimmed segment \<open>b\<close> between the first and the second
  colon, and this is the only expansion request of the run: whatever follows the
  second colon never reaches the expansion prompt.
\<close>

theorem second_colon_discarded:
  assumes "startsWith message_text (js ''Fuzzy search'')"
    and "message_text = a @ [0x003A] @ b @ [0x003A] @ c"
    and "0x003A \<notin> set a" and "0x003A \<notin> set b"
  shows "take 3 (userMessage w message_text)
         = [SetTitle message_text, SetStatus (js ''is typing..''),
            ChatCompletion (KeywordPrompt (trim b))]
       \<and> expansion_requests (userMessage w message_text) = [trim b]"
proof -
  obtain t ts where c: "split_char 0x003A c = t # ts"
    using split_char_nonempty [of "0x003A" c] by (cases "split_char 0x003A c") auto
  have parts: "split_char 0x003A message_text = a # b # t # ts"
    using assms(2-4) c by (simp add: split_char_append)
  have u: "userMessage w message_text
           = SetTitle message_text # SetStatus (js ''is typing..'') # fuzzy_search w message_text"
    using assms(1) fuzzy_not_summary [OF assms(1)] by (simp add: userMessage_def)
  have "take 3 (userMessage w message_text)
        = SetTitle message_text # SetStatus (js ''is typing..'') # take 1 (fuzzy_search w message_text)"
    unfolding u by (simp add: numeral_3_eq_3)
  then show ?thesis
    unfolding fuzzy_search_head [OF parts] u
    by (simp add: expansion_requests_Cons fuzzy_search_expansion [OF parts])
qed

lemma starts_foo_bar: "startsWith (js ''Fuzzy search: foo: bar'') (js ''Fuzzy search'')"
  by (simp add: startsWith_def js_def)

lemma foo_bar_parts:
  "js ''Fuzzy search: foo: bar'' = js ''Fuzzy search'' @ [0x003A] @ js '' foo'' @ [0x003A] @ js '' bar''"
  "0x003A \<notin> set (js ''Fuzzy search'')" "0x003A \<notin> set (js '' foo'')"
  "trim (js '' foo'') = js ''foo''"
  by (simp_all add: js_def trim_def isWhiteSpace_def)

theorem second_colon_discarded_witness:
  "startsWith (js ''Fuzzy search: foo: bar'') (js ''Fuzzy search'')
   \<and> (\<forall>w. take 3 (userMessage w (js ''Fuzzy search: foo: bar''))
            = [SetTitle (js ''Fuzzy search: foo: bar''), SetStatus (js ''is typing..''),
               ChatCompletion (KeywordPrompt (js ''foo''))]
          \<and> expansion_requests (userMessage w (js ''Fuzzy search: foo: bar'')) = [js ''foo''])"
  using second_colon_discarded [OF starts_foo_bar foo_bar_parts(1-3)]
  by (simp add: starts_foo_bar foo_bar_parts(4))

lemma bare_label_parts:
  "startsWith (js ''Fuzzy search:'') (js ''Fuzzy search'')"
  "split_char 0x003A (js ''Fuzzy search:'') = [js ''Fuzzy search'', []]"
  by (simp_all add: js_def startsWith_def)

text \<open>
  C5, at the input \<^verbatim>\<open>Fuzzy search:\<close>. Nothing remains after the label, yet in every
  world the handler's third call is an expansion request, with the empty query: the
  test of line 186 only catches a message without any colon.
\<close>

theorem empty_query_proceeds:
  "\<forall>w. take 3 (userMessage w (js ''Fuzzy search:''))
        = [SetTitle (js ''Fuzzy search:''), SetStatus (js ''is typing..''),
           ChatCompletion (KeywordPrompt [])]"
proof
  fix w
  have u: "userMessage w (js ''Fuzzy search:'')
           = SetTitle (js ''Fuzzy search:'') # SetStatus (js ''is typing..'')
             # fuzzy_search w (js ''Fuzzy search:'')"
    using bare_label_parts(1) fuzzy_not_summary [OF bare_label_parts(1)]
    by (simp add: userMessage_def)
  show "take 3 (userMessage w (js ''Fuzzy search:''))
        = [SetTitle (js ''Fuzzy search:''), SetStatus (js ''is typing..''),
           ChatCompletion (KeywordPrompt [])]"
    unfolding u using fuzzy_search_head [OF bare_label_parts(2), of w]
    by (simp add: numeral_3_eq_3 trim_def)
qed

lemma no_colon_usage_hint:
  assumes "startsWith message_text (js ''Fuzzy search'')" and "0x003A \<notin> set message_text"
  shows "userMessage w message_text
         = [SetTitle message_text, SetStatus (js ''is typing..''), Say usage_hint]"
  using assms fuzzy_not_summary [OF assms(1)]
  by (simp add: userMessage_def fuzzy_search_def split_char_none)


lemma rank_and_present_head:
  "\<exists>rest. rank_and_present w q pool = ChatCompletion (EvaluationPrompt q (numbered pool)) # rest"
  by (simp add: rank_and_present_def Let_def)

lemma numbered_lines:
  "numbered pool
   = join [0x000A] (map (\<lambda>i. toString (i + 1) @ js '': '' @ msg_text (pool ! i)) [0..<length pool])"
  by (simp add: numbered_def map_idx_nth)

text \<open>
  C3. For every world and every keyword list, the pool built by the search loop is the
  concatenation, in keyword order, of what each search contributes, a search that
  throws contributing nothing; and whenever that pool is not empty, the run goes on,
  after the calls of the loop, with the ranking request, whose prompt carries the
  query and the numbered list of exactly the texts of that pool: line \<open>i + 1\<close> is the
  number \<open>i + 1\<close>, a colon and the text of the pool's message \<open>i\<close>.
\<close>

theorem search_failures_tolerated:
  "snd (search_loop w 0 ks [])
   = concat (map (\<lambda>(i, k). hits_of (search_messages w i k)) (enumerate 0 ks))
   \<and> (let pool = concat (map (\<lambda>(i, k). hits_of (search_messages w i k))
                      (enumerate 0 (keywords_of content)))
      in split_char 0x003A message_text = p0 # p1 # ps
         \<and> completions_create w (KeywordPrompt (trim p1)) = Returns (Some content)
         \<and> pool \<noteq> [] \<longrightarrow>
         (\<exists>rest. fuzzy_search w message_text
            = [ChatCompletion (KeywordPrompt (trim p1)), ConsoleLog,
               Say (keyword_label @ join (js '','') (keywords_of content))]
              @ fst (search_loop w 0 (keywords_of content) [])
              @ ChatCompletion
                  (EvaluationPrompt (trim p1)
                     (join [0x000A]
                        (map (\<lambda>i. toString (i + 1) @ js '': '' @ msg_text (pool ! i))
                           [0..<length pool])))
                # rest))"
proof -
  let ?pool = "concat (map (\<lambda>(i, k). hits_of (search_messages w i k))
                      (enumerate 0 (keywords_of content)))"
  have pool: "snd (search_loop w 0 (keywords_of content) []) = ?pool"
    using search_loop_pool [of w 0 "keywords_of content" "[]"] by simp
  have "\<exists>rest. fuzzy_search w message_text
           = [ChatCompletion (KeywordPrompt (trim p1)), ConsoleLog,
              Say (keyword_label @ join (js '','') (keywords_of content))]
             @ fst (search_loop w 0 (keywords_of content) [])
             @ ChatCompletion
                 (EvaluationPrompt (trim p1)
                    (join [0x000A]
                       (map (\<lambda>i. toString (i + 1) @ js '': '' @ msg_text (?pool ! i))
                          [0..<length ?pool])))
               # rest"
    if "split_char 0x003A message_text = p0 # p1 # ps"
      and "completions_create w (KeywordPrompt (trim p1)) = Returns (Some content)"
      and "?pool \<noteq> []"
  proof -
    obtain rest where
      "rank_and_present w (trim p1) ?pool
       = ChatCompletion (EvaluationPrompt (trim p1) (numbered ?pool)) # rest"
      using rank_and_present_head [of w "trim p1" ?pool] by blast
    then have "fuzzy_search w message_text
           = [ChatCompletion (KeywordPrompt (trim p1)), ConsoleLog,
              Say (keyword_label @ join (js '','') (keywords_of content))]
             @ fst (search_loop w 0 (keywords_of content) [])
             @ ChatCompletion (EvaluationPrompt (trim p1) (numbered ?pool)) # rest"
      using that pool by (simp add: fuzzy_search_def Let_def case_prod_beta)
    then show ?thesis
      unfolding numbered_lines by blast
  qed
  then show ?thesis
    unfolding Let_def using search_loop_pool [of w 0 ks "[]"] by simp
qed

lemma abc_keywords: "keywords_of (js ''a,b,c'') = [js ''a'', js ''b'', js ''c'']"
proof -
  have "split_runs (js ''a,b,c'') = [js ''a'', js ''b'', js ''c'']"
    by (simp add: js_def isSeparator_def)
  moreover have "trim (js ''a'') = js ''a''" "trim (js ''b'') = js ''b''" "trim (js ''c'') = js ''c''"
    by (simp_all add: trim_def js_def isWhiteSpace_def)
  ultimately show ?thesis
    unfolding keywords_of_def by simp (simp add: js_def)
qed

lemma x_parts:
  "split_char 0x003A (js ''Fuzzy search: x'') = [js ''Fuzzy search'', js '' x'']"
  "trim (js '' x'') = js ''x''"
  by (simp_all add: js_def trim_def isWhiteSpace_def)

lemma partial_failure_searches:
  "completions_create partial_failure_world (KeywordPrompt q) = Returns (Some (js ''a,b,c''))"
  "search_messages partial_failure_world 0 q = Returns (Some [\<lparr>msg_text = q, permalink = js ''p'' @ q\<rparr>])"
  "search_messages partial_failure_world (Suc 0) q = Throws OtherError"
  "search_messages partial_failure_world (Suc (Suc 0)) q = Returns (Some [\<lparr>msg_text = q, permalink = js ''p'' @ q\<rparr>])"
  by (simp_all add: partial_failure_world_def)

lemma partial_failure_loop:
  "search_loop partial_failure_world 0 [js ''a'', js ''b'', js ''c''] []
   = ([SearchMessages (js ''a'') 20, ConsoleLog, LoggerInfo 1,
       SearchMessages (js ''b'') 20, LoggerError,
       SearchMessages (js ''c'') 20, ConsoleLog, LoggerInfo 1],
      [\<lparr>msg_text = js ''a'', permalink = js ''p'' @ js ''a''\<rparr>,
       \<lparr>msg_text = js ''c'', permalink = js ''p'' @ js ''c''\<rparr>])"
  by (simp add: partial_failure_searches)

lemma partial_failure_hits:
  "concat (map (\<lambda>(i, k). hits_of (search_messages partial_failure_world i k))
             (enumerate 0 [js ''a'', js ''b'', js ''c'']))
   = [\<lparr>msg_text = js ''a'', permalink = js ''p'' @ js ''a''\<rparr>,
      \<lparr>msg_text = js ''c'', permalink = js ''p'' @ js ''c''\<rparr>]"
  by (simp add: enumerate_eq_zip upt_conv_Cons partial_failure_searches hits_of_def)

lemma partial_failure_listing:
  "join [0x000A]
     (map (\<lambda>i. toString (i + 1) @ js '': ''
               @ msg_text ([\<lparr>msg_text = js ''a'', permalink = js ''p'' @ js ''a''\<rparr>,
                            \<lparr>msg_text = js ''c'', permalink = js ''p'' @ js ''c''\<rparr>] ! i))
        [0..<length [\<lparr>msg_text = js ''a'', permalink = js ''p'' @ js ''a''\<rparr>,
                     \<lparr>msg_text = js ''c'', permalink = js ''p'' @ js ''c''\<rparr>]])
   = js ''1: a'' @ [0x000A] @ js ''2: c''"
  by (simp add: upt_conv_Cons toString_digit js_def)

theorem search_failures_tolerated_witness:
  "search_messages partial_failure_world 1 (js ''b'') = Throws OtherError
   \<and> snd (search_loop partial_failure_world 0 [js ''a'', js ''b'', js ''c''] [])
     = [\<lparr>msg_text = js ''a'', permalink = js ''p'' @ js ''a''\<rparr>,
        \<lparr>msg_text = js ''c'', permalink = js ''p'' @ js ''c''\<rparr>]
   \<and> (\<exists>rest. fuzzy_search partial_failure_world (js ''Fuzzy search: x'')
         = [ChatCompletion (KeywordPrompt (js ''x'')), ConsoleLog,
            Say (keyword_label @ join (js '','') [js ''a'', js ''b'', js ''c'']),
            SearchMessages (js ''a'') 20, ConsoleLog, LoggerInfo 1,
            SearchMessages (js ''b'') 20, LoggerError,
            SearchMessages (js ''c'') 20, ConsoleLog, LoggerInfo 1,
            ChatCompletion (EvaluationPrompt (js ''x'') (js ''1: a'' @ [0x000A] @ js ''2: c''))]
           @ rest)"
  using search_failures_tolerated [of partial_failure_world "[js ''a'', js ''b'', js ''c'']"
          "js ''a,b,c''" "js ''Fuzzy search: x''" "js ''Fuzzy search''" "js '' x''" "[]"]
  unfolding Let_def x_parts abc_keywords partial_failure_loop partial_failure_hits
    partial_failure_listing
  by (simp add: partial_failure_searches)

lemma empty_pool_falls_through:
  assumes "split_char 0x003A message_text = p0 # p1 # ps"
    and "completions_create w (KeywordPrompt (trim p1)) = Returns (Some content)"
    and "snd (search_loop w 0 (keywords_of content) []) = []"
  shows "fuzzy_search w message_text
         = [ChatCompletion (KeywordPrompt (trim p1)), ConsoleLog,
            Say (keyword_label @ join (js '','') (keywords_of content))]
           @ fst (search_loop w 0 (keywords_of content) [])
           @ scenario2 w message_text"
  using assms by (simp add: fuzzy_search_def Let_def case_prod_beta)

lemma foo_parts:
  "startsWith (js ''Fuzzy search: foo'') (js ''Fuzzy search'')"
  "split_char 0x003A (js ''Fuzzy search: foo'') = [js ''Fuzzy search'', js '' foo'']"
  "trim (js '' foo'') = js ''foo''"
  by (simp_all add: js_def trim_def isWhiteSpace_def startsWith_def)

lemma foo_keywords: "keywords_of (js ''foo'') = [js ''foo'']"
proof -
  have "split_runs (js ''foo'') = [js ''foo'']"
    by (simp add: js_def isSeparator_def)
  moreover have "trim (js ''foo'') = js ''foo''"
    by (simp add: trim_def js_def isWhiteSpace_def)
  ultimately show ?thesis
    unfolding keywords_of_def by simp (simp add: js_def)
qed

lemma all_fail_answers:
  "completions_create all_fail_world (KeywordPrompt q) = Returns (Some q)"
  "completions_create all_fail_world (ThreadMessages h t) = Returns (Some (js ''ok''))"
  "search_messages all_fail_world i q = Throws OtherError"
  "conversations_replies all_fail_world
   = Returns [\<lparr>has_bot_id = False, thread_text = js ''Fuzzy search: foo''\<rparr>]"
  by (simp_all add: all_fail_world_def)

lemma no_results_ne_ok: "js ''ok'' \<noteq> no_results" "keyword_label @ js ''foo'' \<noteq> no_results"
  by (simp_all add: js_def no_results_def keyword_label_def)

text \<open>
  C4, at a run of \<^verbatim>\<open>Fuzzy search: foo\<close> in which the only search throws. The ranking
  request is not made, as claimed, but no "no results" message is posted either:
  control leaves the fuzzy-search block, the thread is fetched, the user's message goes
  to the completion service and its answer is posted.
\<close>

theorem empty_pool_failing_input:
  "userMessage all_fail_world (js ''Fuzzy search: foo'')
   = [SetTitle (js ''Fuzzy search: foo''), SetStatus (js ''is typing..''),
      ChatCompletion (KeywordPrompt (js ''foo'')), ConsoleLog,
      Say (keyword_label @ js ''foo''),
      SearchMessages (js ''foo'') 20, LoggerError,
      ConversationsReplies,
      ChatCompletion
        (ThreadMessages [(UserRole, js ''Fuzzy search: foo'')] (js ''Fuzzy search: foo'')),
      Say (js ''ok'')]
   \<and> Say no_results \<notin> set (userMessage all_fail_world (js ''Fuzzy search: foo''))"
proof -
  have loop: "search_loop all_fail_world 0 [js ''foo''] []
              = ([SearchMessages (js ''foo'') 20, LoggerError], [])"
    by (simp add: all_fail_answers)
  have s2: "scenario2 all_fail_world (js ''Fuzzy search: foo'')
            = [ConversationsReplies,
               ChatCompletion
                 (ThreadMessages [(UserRole, js ''Fuzzy search: foo'')] (js ''Fuzzy search: foo'')),
               Say (js ''ok'')]"
    by (simp add: scenario2_def all_fail_answers)
  have "fuzzy_search all_fail_world (js ''Fuzzy search: foo'')
        = [ChatCompletion (KeywordPrompt (js ''foo'')), ConsoleLog,
           Say (keyword_label @ js ''foo''),
           SearchMessages (js ''foo'') 20, LoggerError,
           ConversationsReplies,
           ChatCompletion
             (ThreadMessages [(UserRole, js ''Fuzzy search: foo'')] (js ''Fuzzy search: foo'')),
           Say (js ''ok'')]"
    using empty_pool_falls_through [of "js ''Fuzzy search: foo''" "js ''Fuzzy search''"
            "js '' foo''" "[]" all_fail_world "js ''foo''"]
    unfolding foo_parts foo_keywords loop s2 by (simp add: all_fail_answers)
  then have "userMessage all_fail_world (js ''Fuzzy search: foo'')
   = [SetTitle (js ''Fuzzy search: foo''), SetStatus (js ''is typing..''),
      ChatCompletion (KeywordPrompt (js ''foo'')), ConsoleLog,
      Say (keyword_label @ js ''foo''),
      SearchMessages (js ''foo'') 20, LoggerError,
      ConversationsReplies,
      ChatCompletion
        (ThreadMessages [(UserRole, js ''Fuzzy search: foo'')] (js ''Fuzzy search: foo'')),
      Say (js ''ok'')]"
    using foo_parts(1) fuzzy_not_summary [OF foo_parts(1)] by (simp add: userMessage_def)
  then show ?thesis
    using no_results_ne_ok by simp
qed

lemma scenario1_recovery:
  assumes "getThreadContext w = Returns ch"
    and "conversations_history w 50 = Throws (PlatformError (js ''not_in_channel''))"
    and "conversations_join w = Returns u"
    and "conversations_history w 10 = Returns msgs"
  shows "scenario1 w
         = [GetThreadContext, ConversationsHistory ch 50, ConversationsJoin ch,
            ConversationsHistory ch 10] @ summarize w ch msgs"
  using assms by (simp add: scenario1_def)

text \<open>
  C6 (amended). In the search loop every keyword is searched exactly once, with count
  20, whatever the searches answer or throw; besides these searches the loop only
  writes to the log, so it neither joins anything nor searches again. The recovery of
  the claim exists in the channel summary: when the history fetch with limit 50
  throws \<^verbatim>\<open>not_in_channel\<close>, the handler joins the channel once and fetches once more
  with limit 10.
\<close>

theorem search_no_recovery:
  "filter (\<lambda>c. \<not> is_logging c) (fst (search_loop w i ks acc)) = map (\<lambda>k. SearchMessages k 20) ks
   \<and> (getThreadContext w = Returns ch
        \<and> conversations_history w 50 = Throws (PlatformError (js ''not_in_channel''))
        \<and> conversations_join w = Returns u
        \<and> conversations_history w 10 = Returns msgs \<longrightarrow>
        scenario1 w
        = [GetThreadContext, ConversationsHistory ch 50, ConversationsJoin ch,
           ConversationsHistory ch 10] @ summarize w ch msgs)"
  using search_loop_calls [of w i ks acc] scenario1_recovery [of w ch u msgs] by blast

lemma not_in_channel_answers:
  "search_messages not_in_channel_world i q = Throws (PlatformError (js ''not_in_channel''))"
  "getThreadContext not_in_channel_world = Returns (js ''C1'')"
  "conversations_history not_in_channel_world 50 = Throws (PlatformError (js ''not_in_channel''))"
  "conversations_history not_in_channel_world 10 = Returns []"
  "conversations_join not_in_channel_world = Returns ()"
  by (simp_all add: not_in_channel_world_def)

theorem search_no_recovery_witness:
  "search_messages not_in_channel_world 0 (js ''q'') = Throws (PlatformError (js ''not_in_channel''))
   \<and> filter (\<lambda>c. \<not> is_logging c) (fst (search_loop not_in_channel_world 0 [js ''q''] []))
     = [SearchMessages (js ''q'') 20]
   \<and> scenario1 not_in_channel_world
     = [GetThreadContext, ConversationsHistory (js ''C1'') 50, ConversationsJoin (js ''C1''),
        ConversationsHistory (js ''C1'') 10] @ summarize not_in_channel_world (js ''C1'') []"
  using search_no_recovery [of not_in_channel_world 0 "[js ''q'']" "[]" "js ''C1''" "()" "[]"]
  by (simp add: not_in_channel_answers)

text \<open>
  C6 fails as stated: a search that throws the membership error \<^verbatim>\<open>not_in_channel\<close>
  is followed by a log entry only.
\<close>

theorem search_recovery_counterexample:
  "search_messages not_in_channel_world 0 (js ''q'') = Throws (PlatformError (js ''not_in_channel''))
   \<and> fst (search_loop not_in_channel_world 0 [js ''q''] []) = [SearchMessages (js ''q'') 20, LoggerError]"
  by (simp add: not_in_channel_answers)

end
